theory Spec2Isabelle
  imports Complex_Main "HOL-Library.Multiset"
begin

section \<open>The protein product generator\<close>

text \<open>
  The program is one Python script, \<^verbatim>\<open>generate_protein_products_fixed.py\<close>: it
  declares candidate lists and the list of CSV columns, builds one dictionary per index of
  \<^verbatim>\<open>range(1, 401)\<close> from random draws, collects the dictionaries in a list, puts
  them in a data frame with the declared columns and writes the frame as CSV.
\<close>

subsection \<open>Python values and dictionaries\<close>

text \<open>
  The values stored in a row are strings, integers and one float (the rating). The float is
  modelled by the exact rational it denotes. A dictionary literal is an association list
  in insertion order; \<open>map_of\<close> is the lookup \<^verbatim>\<open>row[key]\<close>, with \<open>None\<close> for a
  missing key.
\<close>

datatype pyval = PStr string | PInt int | PFloat rat

type_synonym row = "(string \<times> pyval) list"

subsection \<open>Formatting integers\<close>

definition digit_char :: "nat \<Rightarrow> char" where
  "digit_char d = ''0123456789'' ! (d mod 10)"

fun str_nat :: "nat \<Rightarrow> string" where
  "str_nat n = (if n < 10 then [digit_char n] else str_nat (n div 10) @ [digit_char (n mod 10)])"

declare str_nat.simps [simp del]

text \<open>\<^verbatim>\<open>str(i)\<close> and the \<^verbatim>\<open>{i}\<close> of an f-string, for a Python integer.\<close>

definition str_int :: "int \<Rightarrow> string" where
  "str_int i = (if i < 0 then ''-'' @ str_nat (nat (- i)) else str_nat (nat i))"

definition zfill :: "nat \<Rightarrow> string \<Rightarrow> string" where
  "zfill w s = replicate (w - length s) (CHR ''0'') @ s"

text \<open>
  The format \<^verbatim>\<open>{i:04d}\<close>: decimal, zero-filled to a minimum width of 4; the sign of
  a negative number counts in the width and comes before the zeros.
\<close>

definition fmt_04d :: "int \<Rightarrow> string" where
  "fmt_04d i = (if i < 0 then ''-'' @ zfill 3 (str_nat (nat (- i))) else zfill 4 (str_nat (nat i)))"

subsection \<open>The random source\<close>

text \<open>
  The script draws from Python's global, unseeded generator. Its state is explicit here:
  an arbitrary infinite sequence of raw values and the position of the next one. Each call
  of \<^verbatim>\<open>random.randint\<close>, \<^verbatim>\<open>random.choice\<close> and \<^verbatim>\<open>random.uniform\<close> consumes
  one raw value and maps it into the range the library documents: an integer \<open>N\<close> with
  \<open>a \<le> N \<le> b\<close>, an element of the sequence, and \<open>a + (b - a) * random()\<close> with
  \<open>random()\<close> a multiple of \<open>2\<^sup>-\<^sup>5\<^sup>3\<close> in \<open>[0, 1)\<close>. Every theorem below holds for
  every state of the source. Every call in the script has \<open>a \<le> b\<close> and a non-empty literal
  list, so the library's errors for an empty range or an empty sequence cannot occur.
\<close>

record rng =
  draws :: "nat \<Rightarrow> nat"
  pos :: nat

definition next_raw :: "rng \<Rightarrow> nat \<times> rng" where
  "next_raw g = (draws g (pos g), g\<lparr>pos := pos g + 1\<rparr>)"

definition randint :: "int \<Rightarrow> int \<Rightarrow> rng \<Rightarrow> int \<times> rng" where
  "randint a b g = (case next_raw g of (n, g') \<Rightarrow> (a + int (n mod nat (b - a + 1)), g'))"

definition choice :: "'a list \<Rightarrow> rng \<Rightarrow> 'a \<times> rng" where
  "choice xs g = (case next_raw g of (n, g') \<Rightarrow> (xs ! (n mod length xs), g'))"

definition uniform :: "rat \<Rightarrow> rat \<Rightarrow> rng \<Rightarrow> rat \<times> rng" where
  "uniform a b g =
     (case next_raw g of (n, g') \<Rightarrow> (a + (b - a) * (of_nat (n mod 2 ^ 53) / 2 ^ 53), g'))"

text \<open>
  \<^verbatim>\<open>round(x, 1)\<close>: the nearest multiple of one tenth, a tie going to the even
  neighbour.
\<close>

definition round_half_even :: "rat \<Rightarrow> int" where
  "round_half_even x =
     (let f = \<lfloor>x\<rfloor>; d = x - of_int f
      in if d < 1 / 2 then f else if 1 / 2 < d then f + 1 else if even f then f else f + 1)"

definition py_round1 :: "rat \<Rightarrow> rat" where
  "py_round1 x = of_int (round_half_even (x * 10)) / 10"

subsection \<open>The sample values\<close>

definition brands :: "string list" where
  "brands = [''Optimus'', ''Health Supp'', ''GNC'', ''MuscleBlaze'', ''Ultimate Nutrition'',
     ''ON'', ''Labrada'', ''Dymatize'']"

definition manufacturers :: "string list" where
  "manufacturers = [''Optimus Inc'', ''GNC Ltd'', ''MuscleBlaze Pvt'', ''Ultimate Nutrition Co'',
     ''Dymatize India'', ''ON Labs'']"

definition countries :: "string list" where
  "countries = [''India'', ''USA'', ''Germany'', ''UK'', ''Canada'']"

definition flavors :: "string list" where
  "flavors = [''Chocolate'', ''Vanilla'', ''Strawberry'', ''Mango'', ''Banana'',
     ''Cookies & Cream'', ''Unflavored'']"

definition certifications :: "string list" where
  "certifications = [''FSSAI Approved'', ''GMP Certified'', ''ISO 22000'', ''FDA Approved'',
     ''Halal Certified'']"

definition dietary_info :: "string list" where
  "dietary_info = [''vegetarian'', ''vegan'', ''non-GMO'', ''gluten-free'', ''organic'']"

definition skin_types :: "string list" where
  "skin_types = [''normal'', ''dry'', ''oily'', ''combination'', ''sensitive'']"

definition hair_types :: "string list" where
  "hair_types = [''straight'', ''wavy'', ''curly'', ''fine'', ''thick'']"

definition allergens :: "string list" where
  "allergens = [''nuts'', ''dairy'', ''gluten'', ''soy'']"

definition seasons :: "string list" where
  "seasons = [''spring'', ''summer'', ''fall'', ''winter'', ''all-season'']"

definition genders :: "string list" where
  "genders = [''men'', ''women'', ''unisex'']"

definition age_groups :: "string list" where
  "age_groups = [''adult'', ''teen'', ''senior'', ''all-ages'']"

definition all_columns :: "string list" where
  "all_columns =
    [''name'', ''description'', ''price'', ''originalPrice'', ''images'', ''category'',
     ''subcategory'', ''brand'', ''stock'',
     ''rating'', ''reviewCount'', ''tags'', ''features'', ''ingredients'', ''isNewProduct'',
     ''isBestseller'', ''isFeatured'',
     ''sku'', ''barcode'', ''color'', ''size'', ''material'', ''scent'', ''gender'', ''ageGroup'',
     ''manufacturer'',
     ''countryOfOrigin'', ''allergens'', ''dietaryInfo'', ''skinType'', ''hairType'',
     ''careInstructions'',
     ''certifications'', ''keywords'', ''metaTitle'', ''metaDescription'', ''minOrderQuantity'',
     ''maxOrderQuantity'',
     ''season'', ''spf'']"

subsection \<open>One iteration of the loop\<close>

text \<open>
  The body of \<^verbatim>\<open>for i in range(1, 401)\<close>, with the draws in the order Python makes
  them: the assignments first, then the values of the dictionary literal from top to
  bottom. In \<^verbatim>\<open>random.choice(xs) if random.choice([True, False]) else ""\<close> the
  condition is drawn first and the candidate is drawn only when the condition is true.
\<close>

definition gen_row :: "int \<Rightarrow> rng \<Rightarrow> row \<times> rng" where
  "gen_row i g0 =
    (let (price, g) = randint 999 4999 g0;
         (delta, g) = randint 200 1000 g;
         original_price = price + delta;
         (stock, g) = randint 50 300 g;
         (u, g) = uniform (7 / 2) 5 g;
         rating = py_round1 u;
         (reviews, g) = randint 50 1000 g;
         (brand, g) = choice brands g;
         (manufacturer, g) = choice manufacturers g;
         (country, g) = choice countries g;
         (flavor, g) = choice flavors g;
         (cert, g) = choice certifications g;
         (diet, g) = choice dietary_info g;
         image_num = (i mod 9) + 1;
         (is_new, g) = choice [''TRUE'', ''FALSE''] g;
         (is_bestseller, g) = choice [''TRUE'', ''FALSE''] g;
         (is_featured, g) = choice [''TRUE'', ''FALSE''] g;
         (barcode, g) = randint 100000000000 999999999999 g;
         (grams, g) = randint 500 2000 g;
         (gender, g) = choice genders g;
         (age_group, g) = choice age_groups g;
         (coin_a, g) = choice [True, False] g;
         (allergen, g) = (if coin_a then choice allergens g else ('''', g));
         (coin_s, g) = choice [True, False] g;
         (skin_type, g) = (if coin_s then choice skin_types g else ('''', g));
         (coin_h, g) = choice [True, False] g;
         (hair_type, g) = (if coin_h then choice hair_types g else ('''', g));
         (max_quantity, g) = randint 5 20 g;
         (season, g) = choice seasons g
     in ([(''name'', PStr (''Protein Supplement '' @ str_int i)),
          (''description'', PStr (''High-quality Protein supplement '' @ str_int i
             @ '' ideal for muscle growth and recovery. '' @ flavor
             @ '' flavor for gym and fitness enthusiasts.'')),
          (''price'', PInt price),
          (''originalPrice'', PInt original_price),
          (''images'', PStr (''uploads/products/protien'' @ str_int image_num @ ''.jpg'')),
          (''category'', PStr ''Proteins''),
          (''subcategory'', PStr ''Health Supplement''),
          (''brand'', PStr brand),
          (''stock'', PInt stock),
          (''rating'', PFloat rating),
          (''reviewCount'', PInt reviews),
          (''tags'', PStr ''Protein,supplement,gym,fitness,muscle''),
          (''features'', PStr (''Supports muscle growth,Boosts recovery,High Protein content,''
             @ flavor @ '' flavor'')),
          (''ingredients'',
             PStr ''Whey Protein Concentrate,Whey Protein Isolate,BCAAs,Digestive Enzymes''),
          (''isNewProduct'', PStr is_new),
          (''isBestseller'', PStr is_bestseller),
          (''isFeatured'', PStr is_featured),
          (''sku'', PStr (''PROT'' @ fmt_04d i)),
          (''barcode'', PStr (str_int barcode)),
          (''color'', PStr ''N/A''),
          (''size'', PStr (str_int grams @ ''g'')),
          (''material'', PStr ''Plastic Jar''),
          (''scent'', PStr flavor),
          (''gender'', PStr gender),
          (''ageGroup'', PStr age_group),
          (''manufacturer'', PStr manufacturer),
          (''countryOfOrigin'', PStr country),
          (''allergens'', PStr allergen),
          (''dietaryInfo'', PStr diet),
          (''skinType'', PStr skin_type),
          (''hairType'', PStr hair_type),
          (''careInstructions'', PStr ''Store in a cool dry place,Keep away from moisture''),
          (''certifications'', PStr cert),
          (''keywords'', PStr ''Protein,health,supplement,gym,fitness,muscle''),
          (''metaTitle'', PStr (brand @ '' Protein Supplement '' @ str_int i @ '' - '' @ flavor)),
          (''metaDescription'', PStr (''Buy '' @ brand @ '' '' @ flavor @ '' Protein supplement ''
             @ str_int i @ '' - premium protein for strength, muscle growth, and fitness.'')),
          (''minOrderQuantity'', PInt 1),
          (''maxOrderQuantity'', PInt max_quantity),
          (''season'', PStr season),
          (''spf'', PStr '''')], g))"

subsection \<open>The loop\<close>

text \<open>
  \<^verbatim>\<open>products = []\<close>, then \<^verbatim>\<open>products.append(row)\<close> for each index in turn; the
  random source is threaded through the iterations.
\<close>

fun gen_loop :: "int list \<Rightarrow> row list \<Rightarrow> rng \<Rightarrow> row list \<times> rng" where
  "gen_loop [] products g = (products, g)"
| "gen_loop (i # is) products g =
     (case gen_row i g of (row, g') \<Rightarrow> gen_loop is (products @ [row]) g')"

definition generate :: "rng \<Rightarrow> row list \<times> rng" where
  "generate g = gen_loop [1..400] [] g"

definition products :: "rng \<Rightarrow> row list" where
  "products g = fst (generate g)"


subsection \<open>The data frame and the CSV file\<close>

text \<open>
  \<^verbatim>\<open>pd.DataFrame(products, columns=all_columns)\<close> builds one frame row per dictionary
  with one cell per requested column, in the requested order; a key the dictionary lacks
  gives a missing value (\<open>None\<close> here) and a key that is not requested is dropped.
  \<^verbatim>\<open>df.to_csv(output_file, index=False)\<close> writes the header and then one line per
  frame row, every line ended by a line feed. A field is quoted when it contains the
  delimiter, the quote character or a line break, and a quote inside it is doubled; a
  missing value is written as the empty field. Both functions belong to the pandas
  library and are modelled from its documented behaviour.
\<close>

record data_frame =
  columns :: "string list"
  cells :: "pyval option list list"

definition DataFrame :: "row list \<Rightarrow> string list \<Rightarrow> data_frame" where
  "DataFrame rows cols = \<lparr>columns = cols, cells = map (\<lambda>r. map (map_of r) cols) rows\<rparr>"

text \<open>
  The text of a float with one decimal digit, the only floats the program stores:
  sign, integer part, point, tenths.
\<close>

definition repr_float :: "rat \<Rightarrow> string" where
  "repr_float x =
     (if x < 0 then ''-'' else '''') @ str_nat (nat \<lfloor>\<bar>x\<bar>\<rfloor>) @ ''.''
       @ [digit_char (nat (\<lfloor>\<bar>x\<bar> * 10\<rfloor> mod 10))]"

fun cell_text :: "pyval option \<Rightarrow> string" where
  "cell_text None = ''''"
| "cell_text (Some (PStr s)) = s"
| "cell_text (Some (PInt i)) = str_int i"
| "cell_text (Some (PFloat x)) = repr_float x"

definition needs_quote :: "string \<Rightarrow> bool" where
  "needs_quote s = list_ex (\<lambda>c. c \<in> set [CHR '','', CHR 0x22, CHR 0x0A, CHR 0x0D]) s"

definition csv_field :: "string \<Rightarrow> string" where
  "csv_field s =
     (if needs_quote s
      then [CHR 0x22] @ concat (map (\<lambda>c. if c = CHR 0x22 then [c, c] else [c]) s) @ [CHR 0x22]
      else s)"

fun str_join :: "string \<Rightarrow> string list \<Rightarrow> string" where
  "str_join sep [] = []"
| "str_join sep [x] = x"
| "str_join sep (x # y # ys) = x @ sep @ str_join sep (y # ys)"

definition csv_line :: "string list \<Rightarrow> string" where
  "csv_line xs = str_join '','' (map csv_field xs)"

definition to_csv :: "data_frame \<Rightarrow> string" where
  "to_csv frame =
     concat (map (\<lambda>l. l @ [CHR 0x0A])
       (csv_line (columns frame) # map (\<lambda>cs. csv_line (map cell_text cs)) (cells frame)))"

text \<open>The frame and the text of the output file that the script produces.\<close>

definition df :: "rng \<Rightarrow> data_frame" where
  "df g = DataFrame (products g) all_columns"

definition output_file :: "rng \<Rightarrow> string" where
  "output_file g = to_csv (df g)"

text \<open>
  The lines of a text: the pieces between line feeds, without the line feeds; a text that
  ends with a line feed has no empty last line.
\<close>

fun lines_from :: "string \<Rightarrow> string \<Rightarrow> string list" where
  "lines_from cur [] = (if cur = [] then [] else [cur])"
| "lines_from cur (c # cs) =
     (if c = CHR 0x0A then cur # lines_from [] cs else lines_from (cur @ [c]) cs)"

definition file_lines :: "string \<Rightarrow> string list" where
  "file_lines s = lines_from [] s"

subsection \<open>The image path as the specification words it\<close>

text \<open>
  The specification gives the image path of record \<open>i\<close> as the prefix, then
  \<open>((i - 1) mod 9) + 1\<close>, then \<open>.jpg\<close>. This definition follows those words; the
  program's own computation is the \<open>image_num\<close> of \<open>gen_row\<close>.
\<close>

definition spec_images :: "int \<Rightarrow> string" where
  "spec_images i = ''uploads/products/protien'' @ str_int (((i - 1) mod 9) + 1) @ ''.jpg''"

text \<open>A concrete state of the random source, for evaluating the program.\<close>

definition sample_rng :: rng where
  "sample_rng = \<lparr>draws = (\<lambda>n. 7 * n + 3), pos = 0\<rparr>"

section \<open>Properties\<close>

subsection \<open>Draws\<close>

lemma randint_range: "a \<le> b \<Longrightarrow> a \<le> fst (randint a b g) \<and> fst (randint a b g) \<le> b"
proof -
  assume ab: "a \<le> b"
  have "0 < nat (b - a + 1)" using ab by simp
  then have "draws g (pos g) mod nat (b - a + 1) < nat (b - a + 1)" by simp
  then have "int (draws g (pos g) mod nat (b - a + 1)) < b - a + 1" using ab by linarith
  then show ?thesis by (simp add: randint_def next_raw_def)
qed










lemma gen_row_keys: "map fst (fst (gen_row i g)) = all_columns"
  apply (simp only: gen_row_def Let_def split_beta fst_conv)
  apply (simp add: all_columns_def)
  done

lemma gen_row_category: "map_of (fst (gen_row i g)) ''category'' = Some (PStr ''Proteins'')"
  apply (simp only: gen_row_def Let_def split_beta fst_conv)
  apply simp
  done

lemma gen_row_images:
  "map_of (fst (gen_row i g)) ''images''
     = Some (PStr (''uploads/products/protien'' @ str_int (i mod 9 + 1) @ ''.jpg''))"
  apply (simp only: gen_row_def Let_def split_beta fst_conv)
  apply simp
  done

lemma gen_row_sku: "map_of (fst (gen_row i g)) ''sku'' = Some (PStr (''PROT'' @ fmt_04d i))"
  apply (simp only: gen_row_def Let_def split_beta fst_conv)
  apply simp
  done

lemma gen_row_price:
  "\<exists>p q. map_of (fst (gen_row i g)) ''price'' = Some (PInt p)
     \<and> map_of (fst (gen_row i g)) ''originalPrice'' = Some (PInt q)
     \<and> 999 \<le> p \<and> p \<le> 4999 \<and> 200 \<le> q - p \<and> q - p \<le> 1000"
  apply (simp only: gen_row_def Let_def split_beta fst_conv)
  apply (simp add: randint_range)
  done



lemma gen_row_order_quantity:
  "\<exists>m. map_of (fst (gen_row i g)) ''minOrderQuantity'' = Some (PInt 1)
     \<and> map_of (fst (gen_row i g)) ''maxOrderQuantity'' = Some (PInt m)
     \<and> 5 \<le> m \<and> m \<le> 20"
  apply (simp only: gen_row_def Let_def split_beta fst_conv)
  apply (simp add: randint_range)
  done

lemma gen_row_stock:
  "\<exists>s c. map_of (fst (gen_row i g)) ''stock'' = Some (PInt s)
     \<and> map_of (fst (gen_row i g)) ''reviewCount'' = Some (PInt c)
     \<and> 50 \<le> s \<and> s \<le> 300 \<and> 50 \<le> c \<and> c \<le> 1000"
  apply (simp only: gen_row_def Let_def split_beta fst_conv)
  apply (simp add: randint_range)
  done

subsection \<open>The optional fields\<close>




subsection \<open>The loop\<close>

lemma gen_loop_length: "length (fst (gen_loop is ps g)) = length ps + length is"
  by (induction "is" arbitrary: ps g) (simp_all split: prod.splits)

lemma gen_loop_prefix: "k < length ps \<Longrightarrow> fst (gen_loop is ps g) ! k = ps ! k"
  by (induction "is" arbitrary: ps g) (simp_all split: prod.splits add: nth_append)

lemma gen_loop_nth:
  "k < length is \<Longrightarrow> \<exists>g'. fst (gen_loop is ps g) ! (length ps + k) = fst (gen_row (is ! k) g')"
proof (induction "is" arbitrary: ps g k)
  case Nil
  then show ?case by simp
next
  case (Cons i "is")
  obtain r g1 where r: "gen_row i g = (r, g1)" by (cases "gen_row i g")
  show ?case
  proof (cases k)
    case 0
    have "fst (gen_loop is (ps @ [r]) g1) ! length ps = (ps @ [r]) ! length ps"
      by (rule gen_loop_prefix) simp
    then have "fst (gen_loop (i # is) ps g) ! (length ps + k) = fst (gen_row i g)"
      using r 0 by simp
    then show ?thesis using 0 by auto
  next
    case (Suc j)
    then have "j < length is" using Cons.prems by simp
    from Cons.IH [OF this, of "ps @ [r]" g1]
    obtain g' where "fst (gen_loop is (ps @ [r]) g1) ! (length (ps @ [r]) + j) = fst (gen_row (is ! j) g')"
      by blast
    then show ?thesis using r Suc by auto
  qed
qed

lemma products_length: "length (products g) = 400"
  by (simp add: products_def generate_def gen_loop_length)

lemma products_nth:
  assumes "k < 400"
  shows "\<exists>g'. products g ! k = fst (gen_row (int k + 1) g')"
proof -
  have len: "k < length [1..400::int]" using assms by simp
  have nth: "[1..400::int] ! k = int k + 1" using assms by (simp add: nth_upto)
  from gen_loop_nth [OF len, of "[]" g] nth show ?thesis
    by (simp add: products_def generate_def)
qed

lemma products_mem:
  assumes "r \<in> set (products g)"
  shows "\<exists>k g'. k < 400 \<and> r = fst (gen_row (int k + 1) g')"
proof -
  from assms obtain k where "k < length (products g)" "products g ! k = r"
    by (auto simp: in_set_conv_nth)
  then show ?thesis using products_nth [of k g] by (auto simp: products_length)
qed

lemma products_first: "products g ! 0 = fst (gen_row 1 g)"
proof -
  obtain r g1 where r: "gen_row 1 g = (r, g1)" by (cases "gen_row 1 g")
  have "[1..400::int] = 1 # [2..400]" by (simp add: upto_rec1)
  then have "products g = fst (gen_loop [2..400] [r] g1)"
    using r by (simp add: products_def generate_def)
  moreover have "fst (gen_loop [2..400] [r] g1) ! 0 = [r] ! 0"
    by (rule gen_loop_prefix) simp
  ultimately show ?thesis using r by simp
qed

lemma products_index:
  assumes "1 \<le> i" "i \<le> 400"
  shows "\<exists>g'. products g ! nat (i - 1) = fst (gen_row i g')"
proof -
  have "nat (i - 1) < 400" using assms by simp
  moreover have "int (nat (i - 1)) + 1 = i" using assms by simp
  ultimately show ?thesis using products_nth [of "nat (i - 1)" g] by simp
qed

subsection \<open>Decimal formatting\<close>

lemma str_nat_small: "n < 10 \<Longrightarrow> str_nat n = [digit_char n]"
  by (subst str_nat.simps) simp

lemma str_nat_large: "10 \<le> n \<Longrightarrow> str_nat n = str_nat (n div 10) @ [digit_char (n mod 10)]"
  by (subst str_nat.simps) simp

lemma digit_char_0: "digit_char 0 = CHR ''0''"
  by (simp add: digit_char_def)

lemma digit_char_inj:
  assumes "a < 10" "b < 10" "digit_char a = digit_char b"
  shows "a = b"
proof -
  have d: "distinct ''0123456789''" by simp
  have "''0123456789'' ! a = ''0123456789'' ! b"
    using assms by (simp add: digit_char_def)
  moreover have "a < length ''0123456789''" "b < length ''0123456789''"
    using assms by simp_all
  ultimately show ?thesis using d nth_eq_iff_index_eq by blast
qed

lemma str_int_digit: "0 \<le> i \<Longrightarrow> i < 10 \<Longrightarrow> str_int i = [digit_char (nat i)]"
  by (simp add: str_int_def str_nat_small)

lemma fmt_04d_nat:
  assumes "n < 10000"
  shows "zfill 4 (str_nat n) =
    [digit_char (n div 1000), digit_char (n div 100 mod 10), digit_char (n div 10 mod 10),
     digit_char (n mod 10)]"
proof -
  consider "n < 10" | "10 \<le> n" "n < 100" | "100 \<le> n" "n < 1000" | "1000 \<le> n"
    by linarith
  then show ?thesis
  proof cases
    case 1
    then have "str_nat n = [digit_char n]" by (rule str_nat_small)
    moreover have "n div 1000 = 0" "n div 100 = 0" "n div 10 = 0" "n mod 10 = n"
      using 1 by simp_all
    ultimately show ?thesis by (simp add: zfill_def digit_char_0 numeral_3_eq_3)
  next
    case 2
    have a: "n div 10 < 10" using 2 by simp
    have "str_nat n = [digit_char (n div 10), digit_char (n mod 10)]"
      using 2 a by (simp add: str_nat_large str_nat_small)
    moreover have "n div 1000 = 0" "n div 100 = 0" "n div 10 mod 10 = n div 10"
      using 2 a by simp_all
    ultimately show ?thesis by (simp add: zfill_def digit_char_0 numeral_2_eq_2)
  next
    case 3
    have a: "10 \<le> n div 10" "n div 10 < 100" using 3 by simp_all
    have b: "n div 10 div 10 < 10" using 3 by simp
    have c: "n div 10 div 10 = n div 100" by (simp add: div_mult2_eq [symmetric])
    have "str_nat (n div 10) = [digit_char (n div 100), digit_char (n div 10 mod 10)]"
      using a b c by (simp add: str_nat_large str_nat_small)
    then have "str_nat n = [digit_char (n div 100), digit_char (n div 10 mod 10),
        digit_char (n mod 10)]"
      using 3 by (simp add: str_nat_large)
    moreover have "n div 1000 = 0" "n div 100 mod 10 = n div 100"
      using 3 b c by simp_all
    ultimately show ?thesis by (simp add: zfill_def digit_char_0)
  next
    case 4
    have c1: "n div 10 div 10 = n div 100" by (simp add: div_mult2_eq [symmetric])
    have c2: "n div 100 div 10 = n div 1000" by (simp add: div_mult2_eq [symmetric])
    have a: "10 \<le> n div 10" "10 \<le> n div 100" "n div 1000 < 10"
      using 4 assms by simp_all
    have "str_nat (n div 100) = [digit_char (n div 1000), digit_char (n div 100 mod 10)]"
      using a c2 by (simp add: str_nat_large str_nat_small)
    then have "str_nat (n div 10) = [digit_char (n div 1000), digit_char (n div 100 mod 10),
        digit_char (n div 10 mod 10)]"
      using a c1 by (simp add: str_nat_large)
    then have "str_nat n = [digit_char (n div 1000), digit_char (n div 100 mod 10),
        digit_char (n div 10 mod 10), digit_char (n mod 10)]"
      using 4 by (simp add: str_nat_large)
    then show ?thesis by (simp add: zfill_def)
  qed
qed

lemma fmt_04d_digits:
  assumes "0 \<le> i" "i < 10000"
  shows "fmt_04d i =
    [digit_char (nat i div 1000), digit_char (nat i div 100 mod 10),
     digit_char (nat i div 10 mod 10), digit_char (nat i mod 10)]"
proof -
  have "nat i < 10000" using assms by simp
  then show ?thesis using assms(1) by (simp add: fmt_04d_def fmt_04d_nat)
qed

lemma digits_value:
  fixes a :: nat
  shows "a = 1000 * (a div 1000) + (100 * (a div 100 mod 10) + (10 * (a div 10 mod 10) + a mod 10))"
proof -
  have 1: "a mod (10 * 10) = 10 * (a div 10 mod 10) + a mod 10" by (rule mod_mult2_eq)
  have 2: "a mod (100 * 10) = 100 * (a div 100 mod 10) + a mod 100" by (rule mod_mult2_eq)
  have 3: "1000 * (a div 1000) + a mod 1000 = a" by (rule mult_div_mod_eq)
  have "1000 * (a div 1000) + (100 * (a div 100 mod 10) + (10 * (a div 10 mod 10) + a mod 10))
      = 1000 * (a div 1000) + a mod 1000"
    using 1 2 by simp
  then show ?thesis using 3 by metis
qed

lemma digits_determine:
  fixes a b :: nat
  assumes "a div 1000 = b div 1000" "a div 100 mod 10 = b div 100 mod 10"
    "a div 10 mod 10 = b div 10 mod 10" "a mod 10 = b mod 10"
  shows "a = b"
  using digits_value [of a] digits_value [of b] assms by simp

lemma fmt_04d_inj:
  assumes "0 \<le> i" "i < 10000" "0 \<le> j" "j < 10000" "fmt_04d i = fmt_04d j"
  shows "i = j"
proof -
  let ?a = "nat i" and ?b = "nat j"
  have lt: "?a < 10000" "?b < 10000" using assms by simp_all
  have eq: "digit_char (?a div 1000) = digit_char (?b div 1000)"
    "digit_char (?a div 100 mod 10) = digit_char (?b div 100 mod 10)"
    "digit_char (?a div 10 mod 10) = digit_char (?b div 10 mod 10)"
    "digit_char (?a mod 10) = digit_char (?b mod 10)"
    using assms by (simp_all add: fmt_04d_digits)
  have "?a div 1000 < 10" "?b div 1000 < 10" using lt by simp_all
  then have 1: "?a div 1000 = ?b div 1000" using eq(1) digit_char_inj by blast
  have 2: "?a div 100 mod 10 = ?b div 100 mod 10"
    by (rule digit_char_inj [OF _ _ eq(2)]) simp_all
  have 3: "?a div 10 mod 10 = ?b div 10 mod 10"
    by (rule digit_char_inj [OF _ _ eq(3)]) simp_all
  have 4: "?a mod 10 = ?b mod 10"
    by (rule digit_char_inj [OF _ _ eq(4)]) simp_all
  have "?a = ?b" using 1 2 3 4 by (rule digits_determine)
  then show ?thesis using assms(1,3) by simp
qed

section \<open>Claims\<close>

text \<open>
  C7: for every generated record, the category field equals the literal string
  \<open>Proteins\<close>, never the misspelling \<open>Protien\<close>.
\<close>

theorem category_is_Proteins:
  "r \<in> set (products g) \<Longrightarrow>
     map_of r ''category'' = Some (PStr ''Proteins'')
     \<and> map_of r ''category'' \<noteq> Some (PStr ''Protien'')"
proof -
  assume "r \<in> set (products g)"
  then obtain k g' where "r = fst (gen_row (int k + 1) g')"
    using products_mem by blast
  then show ?thesis by (simp add: gen_row_category)
qed

theorem category_is_Proteins_witness:
  "products sample_rng ! 0 \<in> set (products sample_rng)
     \<and> map_of (products sample_rng ! 0) ''category'' = Some (PStr ''Proteins'')
     \<and> map_of (products sample_rng ! 0) ''category'' \<noteq> Some (PStr ''Protien'')"
proof -
  have m: "products sample_rng ! 0 \<in> set (products sample_rng)"
    by (simp add: products_length)
  from category_is_Proteins [OF m] m show ?thesis by simp
qed

text \<open>
  C3: for every generated record, price is an integer in [999, 4999], originalPrice is
  price plus an integer in [200, 1000], and so originalPrice is strictly greater than
  price.
\<close>

theorem price_and_original_price:
  "r \<in> set (products g) \<Longrightarrow>
     \<exists>p d. map_of r ''price'' = Some (PInt p) \<and> 999 \<le> p \<and> p \<le> 4999
       \<and> map_of r ''originalPrice'' = Some (PInt (p + d)) \<and> 200 \<le> d \<and> d \<le> 1000
       \<and> p < p + d"
proof -
  assume "r \<in> set (products g)"
  then obtain k g' where r: "r = fst (gen_row (int k + 1) g')"
    using products_mem by blast
  obtain p q where pq: "map_of r ''price'' = Some (PInt p)"
      "map_of r ''originalPrice'' = Some (PInt q)"
      "999 \<le> p" "p \<le> 4999" "200 \<le> q - p" "q - p \<le> 1000"
    using gen_row_price [of "int k + 1" g'] r by auto
  have "map_of r ''originalPrice'' = Some (PInt (p + (q - p)))" using pq(2) by simp
  moreover have "p < p + (q - p)" using pq(5) by simp
  ultimately show ?thesis using pq by blast
qed

theorem price_and_original_price_witness:
  "products sample_rng ! 0 \<in> set (products sample_rng)
     \<and> (\<exists>p d. map_of (products sample_rng ! 0) ''price'' = Some (PInt p)
           \<and> 999 \<le> p \<and> p \<le> 4999
           \<and> map_of (products sample_rng ! 0) ''originalPrice'' = Some (PInt (p + d))
           \<and> 200 \<le> d \<and> d \<le> 1000 \<and> p < p + d)"
proof -
  have m: "products sample_rng ! 0 \<in> set (products sample_rng)"
    by (simp add: products_length)
  from price_and_original_price [OF m] m show ?thesis by blast
qed



text \<open>
  C9: for every generated record, minOrderQuantity is the integer 1 and maxOrderQuantity
  is an integer in [5, 20]; hence minOrderQuantity never exceeds maxOrderQuantity, though
  the program compares them nowhere.
\<close>

theorem order_quantities:
  "r \<in> set (products g) \<Longrightarrow>
     \<exists>lo hi. map_of r ''minOrderQuantity'' = Some (PInt lo) \<and> lo = 1
       \<and> map_of r ''maxOrderQuantity'' = Some (PInt hi) \<and> 5 \<le> hi \<and> hi \<le> 20
       \<and> lo \<le> hi"
proof -
  assume "r \<in> set (products g)"
  then obtain k g' where r: "r = fst (gen_row (int k + 1) g')"
    using products_mem by blast
  obtain m where m: "map_of r ''minOrderQuantity'' = Some (PInt 1)"
      "map_of r ''maxOrderQuantity'' = Some (PInt m)" "5 \<le> m" "m \<le> 20"
    using gen_row_order_quantity [of "int k + 1" g'] r by auto
  have "(1::int) \<le> m" using m(3) by simp
  then show ?thesis using m by blast
qed

theorem order_quantities_witness:
  "products sample_rng ! 0 \<in> set (products sample_rng)
     \<and> (\<exists>lo hi. map_of (products sample_rng ! 0) ''minOrderQuantity'' = Some (PInt lo)
           \<and> lo = 1
           \<and> map_of (products sample_rng ! 0) ''maxOrderQuantity'' = Some (PInt hi)
           \<and> 5 \<le> hi \<and> hi \<le> 20 \<and> lo \<le> hi)"
proof -
  have m: "products sample_rng ! 0 \<in> set (products sample_rng)"
    by (simp add: products_length)
  from order_quantities [OF m] m show ?thesis by blast
qed

text \<open>
  C10: for every generated record, stock is an integer in [50, 300] and reviewCount is an
  integer in [50, 1000].
\<close>

theorem stock_and_review_count:
  "r \<in> set (products g) \<Longrightarrow>
     \<exists>s c. map_of r ''stock'' = Some (PInt s) \<and> 50 \<le> s \<and> s \<le> 300
       \<and> map_of r ''reviewCount'' = Some (PInt c) \<and> 50 \<le> c \<and> c \<le> 1000"
proof -
  assume "r \<in> set (products g)"
  then obtain k g' where r: "r = fst (gen_row (int k + 1) g')"
    using products_mem by blast
  obtain s c where "map_of r ''stock'' = Some (PInt s)"
      "map_of r ''reviewCount'' = Some (PInt c)"
      "50 \<le> s" "s \<le> 300" "50 \<le> c" "c \<le> 1000"
    using gen_row_stock [of "int k + 1" g'] r by auto
  then show ?thesis by blast
qed

theorem stock_and_review_count_witness:
  "products sample_rng ! 0 \<in> set (products sample_rng)
     \<and> (\<exists>s c. map_of (products sample_rng ! 0) ''stock'' = Some (PInt s)
           \<and> 50 \<le> s \<and> s \<le> 300
           \<and> map_of (products sample_rng ! 0) ''reviewCount'' = Some (PInt c)
           \<and> 50 \<le> c \<and> c \<le> 1000)"
proof -
  have m: "products sample_rng ! 0 \<in> set (products sample_rng)"
    by (simp add: products_length)
  from stock_and_review_count [OF m] m show ?thesis by blast
qed

text \<open>
  C2, as stated: for every record index \<open>i\<close> in [1, 400] the images field is the prefix
  followed by \<open>((i - 1) mod 9) + 1\<close> and \<open>.jpg\<close>. The program computes
  \<open>(i mod 9) + 1\<close>, so the first record already differs: it gets \<open>protien2.jpg\<close>.
\<close>

theorem images_spec_formula_counterexample:
  "map_of (products sample_rng ! 0) ''images'' = Some (PStr ''uploads/products/protien2.jpg'')
     \<and> spec_images 1 = ''uploads/products/protien1.jpg''
     \<and> map_of (products sample_rng ! 0) ''images'' \<noteq> Some (PStr (spec_images 1))"
  by (simp add: products_first gen_row_images spec_images_def str_int_def str_nat_small
      digit_char_def)

text \<open>
  C2, amended: for every record index \<open>i\<close> in [1, 400] the images field is the prefix
  followed by the single decimal digit of \<open>(i mod 9) + 1\<close>, a number in [1, 9], and
  \<open>.jpg\<close>.
\<close>

theorem images_cycle:
  "1 \<le> i \<Longrightarrow> i \<le> 400 \<Longrightarrow>
     map_of (products g ! nat (i - 1)) ''images''
       = Some (PStr (''uploads/products/protien'' @ [digit_char (nat (i mod 9 + 1))] @ ''.jpg''))
     \<and> 1 \<le> i mod 9 + 1 \<and> i mod 9 + 1 \<le> 9"
proof -
  assume i: "1 \<le> i" "i \<le> 400"
  then obtain g' where "products g ! nat (i - 1) = fst (gen_row i g')"
    using products_index by blast
  moreover have b: "0 \<le> i mod 9 + 1" "i mod 9 + 1 < 10" by simp_all
  ultimately show ?thesis
    using str_int_digit [OF b] by (simp add: gen_row_images)
qed

theorem images_cycle_witness:
  "(1::int) \<le> 9 \<and> (9::int) \<le> 400
     \<and> map_of (products sample_rng ! 8) ''images''
         = Some (PStr ''uploads/products/protien1.jpg'')"
  using images_cycle [of 9 sample_rng] by (simp add: digit_char_def)

text \<open>
  C5: for every record index \<open>i\<close> in [1, 400] the sku is \<open>PROT\<close> followed by \<open>i\<close>
  written with exactly four decimal digits, zero-padded; so the skus of the 400 records
  are pairwise distinct, and the sku of the fifth record is \<open>PROT0005\<close>.
\<close>

theorem sku_padded_distinct:
  "(1 \<le> i \<and> i \<le> 400 \<longrightarrow>
      map_of (products g ! nat (i - 1)) ''sku''
        = Some (PStr (''PROT'' @ [digit_char (nat i div 1000), digit_char (nat i div 100 mod 10),
            digit_char (nat i div 10 mod 10), digit_char (nat i mod 10)])))
   \<and> distinct (map (\<lambda>r. map_of r ''sku'') (products g))
   \<and> map_of (products g ! 4) ''sku'' = Some (PStr ''PROT0005'')"
proof -
  have sku: "map_of (products g ! nat (j - 1)) ''sku'' = Some (PStr (''PROT'' @ fmt_04d j))"
    if j: "1 \<le> j" "j \<le> 400" for j
  proof -
    obtain g' where "products g ! nat (j - 1) = fst (gen_row j g')"
      using products_index [OF j] by blast
    then show ?thesis by (simp add: gen_row_sku)
  qed
  have one: "1 \<le> i \<and> i \<le> 400 \<longrightarrow>
      map_of (products g ! nat (i - 1)) ''sku''
        = Some (PStr (''PROT'' @ [digit_char (nat i div 1000), digit_char (nat i div 100 mod 10),
            digit_char (nat i div 10 mod 10), digit_char (nat i mod 10)]))"
  proof
    assume i: "1 \<le> i \<and> i \<le> 400"
    then have "fmt_04d i = [digit_char (nat i div 1000), digit_char (nat i div 100 mod 10),
        digit_char (nat i div 10 mod 10), digit_char (nat i mod 10)]"
      by (intro fmt_04d_digits) simp_all
    then show "map_of (products g ! nat (i - 1)) ''sku''
        = Some (PStr (''PROT'' @ [digit_char (nat i div 1000), digit_char (nat i div 100 mod 10),
            digit_char (nat i div 10 mod 10), digit_char (nat i mod 10)]))"
      using sku [of i] i by simp
  qed
  have at: "map_of (products g ! k) ''sku'' = Some (PStr (''PROT'' @ fmt_04d (int k + 1)))"
    if k: "k < 400" for k
    using sku [of "int k + 1"] k by simp
  have two: "distinct (map (\<lambda>r. map_of r ''sku'') (products g))"
  proof (subst distinct_conv_nth, intro allI impI)
    fix a b
    assume a: "a < length (map (\<lambda>r. map_of r ''sku'') (products g))"
      and b: "b < length (map (\<lambda>r. map_of r ''sku'') (products g))"
      and ab: "a \<noteq> b"
    have la: "a < 400" and lb: "b < 400" using a b by (simp_all add: products_length)
    show "map (\<lambda>r. map_of r ''sku'') (products g) ! a
        \<noteq> map (\<lambda>r. map_of r ''sku'') (products g) ! b"
    proof
      assume "map (\<lambda>r. map_of r ''sku'') (products g) ! a
        = map (\<lambda>r. map_of r ''sku'') (products g) ! b"
      then have "map_of (products g ! a) ''sku'' = map_of (products g ! b) ''sku''"
        using la lb by (simp add: products_length)
      then have "fmt_04d (int a + 1) = fmt_04d (int b + 1)"
        using at [OF la] at [OF lb] by simp
      moreover have "0 \<le> int a + 1" "int a + 1 < 10000" "0 \<le> int b + 1" "int b + 1 < 10000"
        using la lb by simp_all
      ultimately have "int a + 1 = int b + 1" by (rule fmt_04d_inj [rotated 4])
      then show False using ab by simp
    qed
  qed
  have "fmt_04d 5 = ''0005''"
    using fmt_04d_digits [of 5] by (simp add: digit_char_def)
  then have three: "map_of (products g ! 4) ''sku'' = Some (PStr ''PROT0005'')"
    using at [of 4] by simp
  from one two three show ?thesis by blast
qed

theorem sku_padded_distinct_witness:
  "(1::int) \<le> 5 \<and> (5::int) \<le> 400
     \<and> map_of (products sample_rng ! 4) ''sku'' = Some (PStr ''PROT0005'')
     \<and> distinct (map (\<lambda>r. map_of r ''sku'') (products sample_rng))"
  using sku_padded_distinct [of 5 sample_rng] by (simp add: digit_char_def)



end
